theory Spec2Isabelle
  imports Complex_Main "HOL-Library.AList"
begin

section \<open>Chunk streaming of WorldCanvas.tsx\<close>

text \<open>
  The theory embeds the chunk streaming code of \<^verbatim>\<open>src/components/WorldCanvas.tsx\<close>:
  the key model (\<^verbatim>\<open>keyOf\<close>, and the \<^verbatim>\<open>split\<close>/\<^verbatim>\<open>parseInt\<close> of the prune scan), the
  closures \<^verbatim>\<open>loadChunkAt\<close>, \<^verbatim>\<open>attemptLoad\<close> and \<^verbatim>\<open>ensureChunksAround\<close>, and the cleanup
  function of the effect. The code runs on one thread; its asynchronous parts are the
  callbacks of \<^verbatim>\<open>setTimeout\<close> and the continuations after an \<^verbatim>\<open>await\<close>. The model is
  a state record and one function per callback or continuation; an event names which of
  them the host runs next.
\<close>

subsection \<open>Numbers as strings\<close>

text \<open>
  Chunk coordinates are JavaScript numbers holding integers; the model takes them as
  \<^typ>\<open>int\<close>. The template literal of \<^verbatim>\<open>keyOf\<close> applies Number-to-string conversion:
  an integer of magnitude below \<open>10\<^sup>2\<^sup>1\<close> is printed in plain decimal notation, a larger one
  in exponent notation (one digit, the further significant digits after a point, then
  \<^verbatim>\<open>e+\<close> and the exponent). For the exponent form the model prints the significant digits
  of the integer itself, which is what JavaScript prints whenever these digits are few
  (as for \<open>10\<^sup>2\<^sup>1\<close>, printed \<^verbatim>\<open>1e+21\<close>).
\<close>

definition digit_char :: "nat \<Rightarrow> char" where
  "digit_char d = ''0123456789'' ! d"

definition is_digit :: "char \<Rightarrow> bool" where
  "is_digit c = (c \<in> set ''0123456789'')"

definition digit_val :: "char \<Rightarrow> nat" where
  "digit_val c = of_char c - 48"

fun digits :: "nat \<Rightarrow> string" where
  "digits n = (if n < 10 then [digit_char n] else digits (n div 10) @ [digit_char (n mod 10)])"

declare digits.simps [simp del]

definition strip_zeros :: "string \<Rightarrow> string" where
  "strip_zeros ds = rev (dropWhile (\<lambda>c. c = CHR ''0'') (rev ds))"

definition exponential :: "nat \<Rightarrow> string" where
  "exponential m =
     (let ds = digits m; sig = strip_zeros ds
      in take 1 sig @ (if length sig \<le> 1 then [] else CHR ''.'' # drop 1 sig)
         @ ''e+'' @ digits (length ds - 1))"

definition numberToString :: "int \<Rightarrow> string" where
  "numberToString n =
     (if n < 0 then ''-'' else []) @
     (if \<bar>n\<bar> < 10 ^ 21 then digits (nat \<bar>n\<bar>) else exponential (nat \<bar>n\<bar>))"

text \<open>\<^verbatim>\<open>const keyOf = (cx, cz) => `${cx},${cz}`\<close>\<close>

definition keyOf :: "int \<Rightarrow> int \<Rightarrow> string" where
  "keyOf cx cz = numberToString cx @ CHR '','' # numberToString cz"

text \<open>
  \<^verbatim>\<open>key.split(',')\<close>: the pieces between the separators; the empty string gives one
  empty piece.
\<close>

fun split :: "char \<Rightarrow> string \<Rightarrow> string list" where
  "split sep [] = [[]]"
| "split sep (c # cs) =
     (if c = sep then [] # split sep cs
      else (case split sep cs of [] \<Rightarrow> [[c]] | w # ws \<Rightarrow> (c # w) # ws))"

text \<open>
  \<^verbatim>\<open>parseInt(n, 10)\<close>: leading white space is skipped, a sign is read, then the longest
  run of decimal digits; with no digit the result is \<^verbatim>\<open>NaN\<close>, here \<open>None\<close>. Whatever
  follows the digits is ignored.
\<close>

definition is_space :: "char \<Rightarrow> bool" where
  "is_space c = (c \<in> set [CHR '' '', CHR 0x09, CHR 0x0A, CHR 0x0B, CHR 0x0C, CHR 0x0D])"

definition parseInt :: "string \<Rightarrow> int option" where
  "parseInt s =
     (let t = dropWhile is_space s;
          neg = (take 1 t = ''-'');
          u = (if take 1 t = ''-'' \<or> take 1 t = ''+'' then drop 1 t else t);
          ds = takeWhile is_digit u
      in if ds = [] then None
         else Some ((if neg then - 1 else 1) * int (foldl (\<lambda>a c. 10 * a + digit_val c) 0 ds)))"

text \<open>
  \<^verbatim>\<open>const [gx, gz] = key.split(',').map((n) => parseInt(n, 10))\<close>: the first two
  elements; a missing element is \<^verbatim>\<open>undefined\<close>, which behaves as \<^verbatim>\<open>NaN\<close> in the
  arithmetic that follows, so it is \<open>None\<close> as well.
\<close>

definition parseKey :: "string \<Rightarrow> int option \<times> int option" where
  "parseKey key =
     (case map parseInt (split CHR '','' key) of
        [] \<Rightarrow> (None, None)
      | [a] \<Rightarrow> (a, None)
      | a # b # _ \<Rightarrow> (a, b))"

subsection \<open>The state of the effect\<close>

text \<open>
  A chunk group is the object \<^verbatim>\<open>buildInstancedChunk\<close> returns: \<open>gid\<close> stands for the
  identity of the object, \<open>gpos\<close> is the \<open>(x, z)\<close> of \<^verbatim>\<open>group.position\<close>, and \<open>gprov\<close>
  tells which of the two bounding box helpers was added (the one of a fetched chunk or the
  red one of a locally generated chunk).
\<close>

datatype provenance = Remote | Local

datatype group = Group (gid: nat) (gpos: "int \<times> int") (gprov: provenance)

text \<open>
  A pending \<^verbatim>\<open>setTimeout\<close>: its handle, the delay passed to \<^verbatim>\<open>setTimeout\<close> in
  milliseconds, and what the callback does:
  \<^item> \<open>AbortFetch r\<close>: \<^verbatim>\<open>controller.abort()\<close> of the attempt \<open>r\<close> (line 83);
  \<^item> \<open>RetryLoad cx cz n\<close>: the retry callback, which calls \<^verbatim>\<open>attemptLoad(n)\<close> (lines 152-156);
  \<^item> \<open>StaggerLoad x z p\<close>: the callback of \<^verbatim>\<open>ensureChunksAround\<close> that calls
    \<^verbatim>\<open>loadChunkAt(x, z, p)\<close> (lines 230-234);
  \<^item> \<open>Prune key\<close>: the removal callback of \<^verbatim>\<open>ensureChunksAround\<close> (lines 248-256).
\<close>

datatype action =
    AbortFetch nat
  | RetryLoad int int nat
  | StaggerLoad int int real
  | Prune string

datatype timer = Timer (tid: nat) (delay: nat) (act: action)

text \<open>
  A suspended invocation of \<^verbatim>\<open>attemptLoad\<close>: the chunk it loads, its \<^verbatim>\<open>retryCount\<close>,
  and the \<^verbatim>\<open>await\<close> it waits at (\<^verbatim>\<open>fetch\<close>, line 87, or \<^verbatim>\<open>res.arrayBuffer()\<close>, line 107).
\<close>

datatype phase = AwaitFetch | AwaitBody

datatype request =
  Request (rid: nat) (rcx: int) (rcz: int) (retryCount: nat) (rphase: phase)

text \<open>
  The variables the closures share: the maps \<^verbatim>\<open>loaded\<close> and \<^verbatim>\<open>chunkLoadQueue\<close> (a
  JavaScript \<^verbatim>\<open>Map\<close> keeps its keys in insertion order, so they are association lists),
  the set \<^verbatim>\<open>inflight\<close>, the flag \<^verbatim>\<open>disposed\<close>, the children of \<^verbatim>\<open>worldGroup\<close> and
  whether \<^verbatim>\<open>worldGroup\<close> is in the scene. \<open>timers\<close> and \<open>requests\<close> are what the host
  holds for the effect: the pending timeouts and the suspended invocations. The last
  three fields are logs: the \<open>(cx, cz)\<close> of every \<^verbatim>\<open>fetch\<close> made, the byte length of
  every grid passed to \<^verbatim>\<open>buildInstancedChunk\<close>, and the key of every call of
  \<^verbatim>\<open>generateChunk\<close>.
\<close>

record world =
  loaded :: "(string \<times> group) list"
  inflight :: "string set"
  chunkLoadQueue :: "(string \<times> real \<times> nat) list"
  disposed :: bool
  worldGroup :: "group list"
  worldInScene :: bool
  timers :: "timer list"
  requests :: "request list"
  nextId :: nat
  fetched :: "(int \<times> int) list"
  built :: "(provenance \<times> nat) list"
  generated :: "string list"

definition init :: world where
  "init = \<lparr>loaded = [], inflight = {}, chunkLoadQueue = [], disposed = False,
            worldGroup = [], worldInScene = True, timers = [], requests = [], nextId = 0,
            fetched = [], built = [], generated = []\<rparr>"

definition VIEW_RADIUS :: int where
  "VIEW_RADIUS = 6"

definition maxRetries :: nat where
  "maxRetries = 3"

definition baseRetryDelay :: nat where
  "baseRetryDelay = 1000"

text \<open>\<^verbatim>\<open>loaded.has(key)\<close>\<close>

definition has :: "(string \<times> 'a) list \<Rightarrow> string \<Rightarrow> bool" where
  "has m key = (map_of m key \<noteq> None)"

text \<open>
  What the functions of \<^verbatim>\<open>lib/three\<close> do in one run of a continuation is not in the
  sources; it is an input of the model: whether \<^verbatim>\<open>buildInstancedChunk\<close> returns (rather
  than throws), and whether \<^verbatim>\<open>generateChunk\<close> and the two \<^verbatim>\<open>PaintLayer\<close> calls return.
\<close>

datatype extern = Extern (buildReturns: bool) (localReturns: bool)

text \<open>
  Modelled from the spec: \<^verbatim>\<open>generateChunk\<close> is in \<^verbatim>\<open>lib/three\<close>, not in the sources; the
  Fallback Generator Adapter "produces a voxel grid of length \<open>CHUNK\<^sup>3\<close>".
\<close>

definition generateChunk_length :: "nat \<Rightarrow> nat" where
  "generateChunk_length chunk = chunk * chunk * chunk"

subsection \<open>attemptLoad and loadChunkAt\<close>

text \<open>
  Lines 137-139 and 186-188: the group is placed, added to \<^verbatim>\<open>worldGroup\<close> and stored
  with \<^verbatim>\<open>loaded.set(key, group)\<close>, which replaces the value of a key that is present.
\<close>

definition publish :: "nat \<Rightarrow> int \<Rightarrow> int \<Rightarrow> provenance \<Rightarrow> world \<Rightarrow> world" where
  "publish chunk cx cz p s =
     (let g = Group (nextId s) (cx * int chunk, cz * int chunk) p
      in s\<lparr>worldGroup := worldGroup s @ [g],
           loaded := AList.update (keyOf cx cz) g (loaded s),
           nextId := nextId s + 1\<rparr>)"

text \<open>The \<^verbatim>\<open>finally\<close> block (lines 195-198); the invocation \<open>r\<close> is over.\<close>

definition finally_block :: "nat \<Rightarrow> string \<Rightarrow> world \<Rightarrow> world" where
  "finally_block r key s =
     s\<lparr>inflight := inflight s - {key},
       chunkLoadQueue := AList.delete key (chunkLoadQueue s),
       requests := filter (\<lambda>q. rid q \<noteq> r) (requests s)\<rparr>"

text \<open>The local generation of the \<^verbatim>\<open>catch\<close> block (lines 161-194), with its own \<^verbatim>\<open>try\<close>.\<close>

definition fallback :: "nat \<Rightarrow> extern \<Rightarrow> int \<Rightarrow> int \<Rightarrow> world \<Rightarrow> world" where
  "fallback chunk x cx cz s =
     (let s1 = s\<lparr>generated := generated s @ [keyOf cx cz]\<rparr>
      in if \<not> localReturns x then s1
         else if disposed s1 then s1
         else
           (let s2 = s1\<lparr>built := built s1 @ [(Local, generateChunk_length chunk)]\<rparr>
            in if buildReturns x then publish chunk cx cz Local s2 else s2))"

text \<open>
  The \<^verbatim>\<open>catch\<close> block (lines 143-194) followed by the \<^verbatim>\<open>finally\<close> block: a retry timer
  and \<^verbatim>\<open>return\<close>, or the local generation.
\<close>

definition catch_block :: "nat \<Rightarrow> extern \<Rightarrow> request \<Rightarrow> world \<Rightarrow> world" where
  "catch_block chunk x q s =
     (let key = keyOf (rcx q) (rcz q)
      in if retryCount q < maxRetries \<and> \<not> disposed s then
           finally_block (rid q) key
             (s\<lparr>timers := timers s @
                   [Timer (nextId s) (baseRetryDelay * 2 ^ retryCount q)
                      (RetryLoad (rcx q) (rcz q) (retryCount q + 1))],
                nextId := nextId s + 1\<rparr>)
         else finally_block (rid q) key (fallback chunk x (rcx q) (rcz q) s))"

text \<open>
  \<^verbatim>\<open>attemptLoad(retryCount)\<close> up to its first \<^verbatim>\<open>await\<close> (lines 77-93): the abort timer
  of 10 seconds is set and the request is sent. The timer and the invocation get the
  same number.
\<close>

definition attemptLoad :: "int \<Rightarrow> int \<Rightarrow> nat \<Rightarrow> world \<Rightarrow> world" where
  "attemptLoad cx cz n s =
     (if disposed s then s
      else s\<lparr>timers := timers s @ [Timer (nextId s) 10000 (AbortFetch (nextId s))],
             requests := requests s @ [Request (nextId s) cx cz n AwaitFetch],
             fetched := fetched s @ [(cx, cz)],
             nextId := nextId s + 1\<rparr>)"

text \<open>\<^verbatim>\<open>loadChunkAt(cx, cz, priority)\<close> (lines 69-76 and 201).\<close>

definition loadChunkAt :: "int \<Rightarrow> int \<Rightarrow> real \<Rightarrow> world \<Rightarrow> world" where
  "loadChunkAt cx cz priority s =
     (let key = keyOf cx cz
      in if has (loaded s) key \<or> key \<in> inflight s \<or> disposed s then s
         else attemptLoad cx cz 0
                (s\<lparr>chunkLoadQueue := AList.update key (priority, 0) (chunkLoadQueue s),
                   inflight := insert key (inflight s)\<rparr>))"

text \<open>
  The promise of \<^verbatim>\<open>fetch\<close> settles for the invocation \<open>r\<close> (lines 95-105): it rejects
  (a network error, or the abort), or it resolves with a response whose \<^verbatim>\<open>ok\<close> is given.
\<close>

datatype fetch_result = NetworkError | Response bool

definition awaiting :: "phase \<Rightarrow> nat \<Rightarrow> world \<Rightarrow> request option" where
  "awaiting ph r s = find (\<lambda>q. rid q = r \<and> rphase q = ph) (requests s)"

definition clearTimeout :: "nat \<Rightarrow> world \<Rightarrow> world" where
  "clearTimeout t s = s\<lparr>timers := filter (\<lambda>tm. tid tm \<noteq> t) (timers s)\<rparr>"

definition fetchSettles :: "nat \<Rightarrow> nat \<Rightarrow> fetch_result \<Rightarrow> extern \<Rightarrow> world \<Rightarrow> world" where
  "fetchSettles chunk r res x s =
     (case awaiting AwaitFetch r s of
        None \<Rightarrow> s
      | Some q \<Rightarrow>
          (case res of
             NetworkError \<Rightarrow> catch_block chunk x q s
           | Response ok \<Rightarrow>
               (let s1 = clearTimeout r s
                in if \<not> ok then catch_block chunk x q s1
                   else s1\<lparr>requests :=
                          map (\<lambda>q'. if rid q' = r
                                     then Request r (rcx q') (rcz q') (retryCount q') AwaitBody
                                     else q') (requests s1)\<rparr>)))"

text \<open>
  The promise of \<^verbatim>\<open>res.arrayBuffer()\<close> settles for the invocation \<open>r\<close> (lines 107-141):
  it rejects, or it resolves with a buffer of the given \<^verbatim>\<open>byteLength\<close>. The second
  length test (line 121) is on the same number and never fails.
\<close>

datatype body_result = BodyError | Body nat

definition bodySettles :: "nat \<Rightarrow> nat \<Rightarrow> body_result \<Rightarrow> extern \<Rightarrow> world \<Rightarrow> world" where
  "bodySettles chunk r res x s =
     (case awaiting AwaitBody r s of
        None \<Rightarrow> s
      | Some q \<Rightarrow>
          (case res of
             BodyError \<Rightarrow> catch_block chunk x q s
           | Body n \<Rightarrow>
               if n = 0 then catch_block chunk x q s
               else if n \<noteq> chunk * chunk * chunk then catch_block chunk x q s
               else if disposed s then finally_block r (keyOf (rcx q) (rcz q)) s
               else
                 (let s1 = s\<lparr>built := built s @ [(Remote, n)]\<rparr>
                  in if buildReturns x
                     then finally_block r (keyOf (rcx q) (rcz q))
                            (publish chunk (rcx q) (rcz q) Remote s1)
                     else catch_block chunk x q s1)))"

subsection \<open>ensureChunksAround\<close>

text \<open>
  \<^verbatim>\<open>Math.max(0, VIEW_RADIUS - Math.sqrt(dx * dx + dz * dz))\<close>. The priority is a real
  number here. The code computes it in double precision, where the square root is rounded;
  the rounding keeps the order of the priorities, which is all the code uses them for:
  \<open>dx * dx + dz * dz\<close> is an integer of at most 72, the rounded roots of two such integers
  are ordered as the integers are, the root of 36 is exactly 6, and the priorities of two
  integers below 36 differ by far more than the rounding error.
\<close>

definition priority :: "int \<Rightarrow> int \<Rightarrow> real" where
  "priority dx dz = max 0 (real_of_int VIEW_RADIUS - sqrt (real_of_int (dx * dx + dz * dz)))"

text \<open>
  The two loops of lines 208-223, \<open>dz\<close> outside and \<open>dx\<close> inside, with the \<^verbatim>\<open>continue\<close>
  for a key that is loaded or in flight.
\<close>

definition candidates :: "int \<Rightarrow> int \<Rightarrow> world \<Rightarrow> (int \<times> int \<times> real) list" where
  "candidates cx cz s =
     [(cx + dx, cz + dz, priority dx dz).
        dz \<leftarrow> [- VIEW_RADIUS..VIEW_RADIUS], dx \<leftarrow> [- VIEW_RADIUS..VIEW_RADIUS],
        \<not> (has (loaded s) (keyOf (cx + dx) (cz + dz)) \<or> keyOf (cx + dx) (cz + dz) \<in> inflight s)]"

text \<open>
  \<^verbatim>\<open>chunksToLoad.sort((a, b) => b.priority - a.priority)\<close>: \<^verbatim>\<open>Array.prototype.sort\<close>
  is stable, and so is \<^const>\<open>sort_key\<close>; the key is the negated priority, for the
  descending order.
\<close>

definition chunksToLoad :: "int \<Rightarrow> int \<Rightarrow> world \<Rightarrow> (int \<times> int \<times> real) list" where
  "chunksToLoad cx cz s = sort_key (\<lambda>c. - snd (snd c)) (candidates cx cz s)"

text \<open>
  Line 241, with \<open>None\<close> for \<^verbatim>\<open>NaN\<close>: a comparison with \<^verbatim>\<open>NaN\<close> is false.
\<close>

definition far :: "int \<Rightarrow> int \<Rightarrow> int option \<times> int option \<Rightarrow> bool" where
  "far cx cz g =
     ((case fst g of None \<Rightarrow> False | Some gx \<Rightarrow> \<bar>gx - cx\<bar> > VIEW_RADIUS + 1) \<or>
      (case snd g of None \<Rightarrow> False | Some gz \<Rightarrow> \<bar>gz - cz\<bar> > VIEW_RADIUS + 1))"

text \<open>The scan of \<^verbatim>\<open>loaded\<close> (lines 238-244).\<close>

definition chunksToRemove :: "int \<Rightarrow> int \<Rightarrow> world \<Rightarrow> string list" where
  "chunksToRemove cx cz s = [key. (key, g) \<leftarrow> loaded s, far cx cz (parseKey key)]"

text \<open>
  \<^verbatim>\<open>xs.forEach((x, index) => setTimeout(callback, index * ms))\<close>: one timer for each
  element, in order.
\<close>

definition setTimeouts :: "nat \<Rightarrow> action list \<Rightarrow> world \<Rightarrow> world" where
  "setTimeouts ms acts s =
     s\<lparr>timers := timers s @ map (\<lambda>(i, a). Timer (nextId s + i) (i * ms) a) (enumerate 0 acts),
       nextId := nextId s + length acts\<rparr>"

definition ensureChunksAround :: "int \<Rightarrow> int \<Rightarrow> world \<Rightarrow> world" where
  "ensureChunksAround cx cz s =
     setTimeouts 10 (map Prune (chunksToRemove cx cz s))
       (setTimeouts 50 (map (\<lambda>(x, z, p). StaggerLoad x z p) (chunksToLoad cx cz s)) s)"

subsection \<open>Timer callbacks, cleanup, events\<close>

text \<open>
  The removal callback (lines 248-256): nothing happens when the key is not in
  \<^verbatim>\<open>loaded\<close>.
\<close>

definition prune :: "string \<Rightarrow> world \<Rightarrow> world" where
  "prune key s =
     (case map_of (loaded s) key of
        None \<Rightarrow> s
      | Some g \<Rightarrow> s\<lparr>worldGroup := remove1 g (worldGroup s),
                    loaded := AList.delete key (loaded s)\<rparr>)"

text \<open>
  The timer \<open>t\<close> fires: it leaves the pending timers and its callback runs. An abort
  makes the pending \<^verbatim>\<open>fetch\<close> of its invocation reject, which runs the \<^verbatim>\<open>catch\<close> block;
  it does nothing when that \<^verbatim>\<open>fetch\<close> has settled.
\<close>

definition fireAction :: "nat \<Rightarrow> extern \<Rightarrow> action \<Rightarrow> world \<Rightarrow> world" where
  "fireAction chunk x a s =
     (case a of
        AbortFetch r \<Rightarrow>
          (case awaiting AwaitFetch r s of None \<Rightarrow> s | Some q \<Rightarrow> catch_block chunk x q s)
      | RetryLoad cx cz n \<Rightarrow>
          if \<not> disposed s \<and> keyOf cx cz \<in> inflight s then attemptLoad cx cz n s else s
      | StaggerLoad cx cz p \<Rightarrow>
          if \<not> disposed s then loadChunkAt cx cz p s else s
      | Prune key \<Rightarrow> prune key s)"

definition fire :: "nat \<Rightarrow> nat \<Rightarrow> extern \<Rightarrow> world \<Rightarrow> world" where
  "fire chunk t x s =
     (case find (\<lambda>tm. tid tm = t) (timers s) of
        None \<Rightarrow> s
      | Some tm \<Rightarrow> fireAction chunk x (act tm) (clearTimeout t s))"

text \<open>
  The cleanup function of the effect (lines 322-348), as far as it touches the state of
  the chunk streaming. It calls neither \<^verbatim>\<open>clearTimeout\<close> nor \<^verbatim>\<open>abort\<close>, and it does not
  detach the chunk groups from \<^verbatim>\<open>worldGroup\<close>.
\<close>

definition cleanup :: "world \<Rightarrow> world" where
  "cleanup s =
     s\<lparr>disposed := True, chunkLoadQueue := [], inflight := {}, loaded := [],
       worldInScene := False\<rparr>"

text \<open>
  What the host can run next. \<open>EnsureChunksAround\<close> is the call of the mount and of the
  frame loop, \<open>LoadChunkAt\<close> a call of \<^verbatim>\<open>loadChunkAt\<close> (the code calls it from the stagger
  callback only, so the event adds no behaviour), the others are a timer that fires, a
  promise that settles and the cleanup. The host may run a callback late, so any pending
  timer may fire; a run of the program is one such sequence of events. The first argument
  of \<open>step\<close> is the constant \<^verbatim>\<open>CHUNK\<close> of \<^verbatim>\<open>WorldConfiguraton\<close>, which is not in the
  sources.
\<close>

datatype event =
    EnsureChunksAround int int
  | LoadChunkAt int int real
  | Fire nat extern
  | FetchSettles nat fetch_result extern
  | BodySettles nat body_result extern
  | Cleanup

fun step :: "nat \<Rightarrow> event \<Rightarrow> world \<Rightarrow> world" where
  "step chunk (EnsureChunksAround cx cz) s = ensureChunksAround cx cz s"
| "step chunk (LoadChunkAt cx cz p) s = loadChunkAt cx cz p s"
| "step chunk (Fire t x) s = fire chunk t x s"
| "step chunk (FetchSettles r res x) s = fetchSettles chunk r res x s"
| "step chunk (BodySettles r res x) s = bodySettles chunk r res x s"
| "step chunk Cleanup s = cleanup s"

definition run :: "nat \<Rightarrow> event list \<Rightarrow> world \<Rightarrow> world" where
  "run chunk es s = foldl (\<lambda>s e. step chunk e s) s es"

text \<open>All the functions of \<^verbatim>\<open>lib/three\<close> return.\<close>

definition returns :: extern where
  "returns = Extern True True"

subsection \<open>Predicates on states\<close>

text \<open>
  The state after the cleanup, as far as the registry and the scene go: the flag is set,
  \<^verbatim>\<open>loaded\<close> and \<^verbatim>\<open>inflight\<close> are empty, and the children of \<^verbatim>\<open>worldGroup\<close> are \<open>w\<close>.
\<close>

definition released :: "group list \<Rightarrow> world \<Rightarrow> bool" where
  "released w s = (disposed s \<and> loaded s = [] \<and> inflight s = {} \<and> worldGroup s = w)"

text \<open>Every grid that was passed to \<^verbatim>\<open>buildInstancedChunk\<close> had \<open>CHUNK\<^sup>3\<close> bytes.\<close>

definition full_grids :: "nat \<Rightarrow> world \<Rightarrow> bool" where
  "full_grids chunk s = (\<forall>b \<in> set (built s). snd b = chunk * chunk * chunk)"


text \<open>
  The call of \<^verbatim>\<open>loadChunkAt\<close> an event makes, if any: the event \<open>LoadChunkAt\<close> itself, or
  a stagger timer that fires.
\<close>

definition calls_loadChunkAt :: "event \<Rightarrow> world \<Rightarrow> (int \<times> int) option" where
  "calls_loadChunkAt e s =
     (case e of
        LoadChunkAt cx cz p \<Rightarrow> Some (cx, cz)
      | Fire t x \<Rightarrow>
          (case find (\<lambda>tm. tid tm = t) (timers s) of
             Some (Timer _ _ (StaggerLoad cx cz p)) \<Rightarrow> Some (cx, cz)
           | _ \<Rightarrow> None)
      | _ \<Rightarrow> None)"

section \<open>Evaluation of runs\<close>

lemmas run_simps =
  run_def init_def returns_def loadChunkAt_def attemptLoad_def fetchSettles_def bodySettles_def
  catch_block_def finally_block_def fallback_def publish_def fire_def fireAction_def prune_def
  cleanup_def clearTimeout_def awaiting_def has_def keyOf_def numberToString_def digits.simps
  digit_char_def Let_def maxRetries_def baseRetryDelay_def generateChunk_length_def


section \<open>Retry and fallback (C1)\<close>

text \<open>
  C1 says that a load whose attempt fails is retried up to three more times, after 1 s,
  2 s and 4 s, and that the local generation runs once when the retries are used up. The
  code sets the retry timer, but its \<^verbatim>\<open>finally\<close> block then takes the key out of
  \<^verbatim>\<open>inflight\<close>, and the retry callback only calls \<^verbatim>\<open>attemptLoad\<close> for a key that is in
  \<^verbatim>\<open>inflight\<close>. The run below is \<^verbatim>\<open>loadChunkAt(0, 0)\<close>, a response with HTTP status
  500, and the retry timer firing: after the failure the timer of 1000 ms is pending and
  \<^verbatim>\<open>inflight\<close> is empty; after the timer has fired there has been one \<^verbatim>\<open>fetch\<close> in all,
  no call of \<^verbatim>\<open>generateChunk\<close>, nothing is pending and nothing is loaded.
\<close>

theorem retry_timer_fires_without_attempt:
  "timers (run 16 [LoadChunkAt 0 0 0, FetchSettles 0 (Response False) returns] init)
     = [Timer 1 1000 (RetryLoad 0 0 1)]
   \<and> inflight (run 16 [LoadChunkAt 0 0 0, FetchSettles 0 (Response False) returns] init) = {}
   \<and> fetched (run 16 [LoadChunkAt 0 0 0, FetchSettles 0 (Response False) returns,
                       Fire 1 returns] init) = [(0, 0)]
   \<and> generated (run 16 [LoadChunkAt 0 0 0, FetchSettles 0 (Response False) returns,
                         Fire 1 returns] init) = []
   \<and> timers (run 16 [LoadChunkAt 0 0 0, FetchSettles 0 (Response False) returns,
                      Fire 1 returns] init) = []
   \<and> requests (run 16 [LoadChunkAt 0 0 0, FetchSettles 0 (Response False) returns,
                        Fire 1 returns] init) = []
   \<and> loaded (run 16 [LoadChunkAt 0 0 0, FetchSettles 0 (Response False) returns,
                      Fire 1 returns] init) = []"
  by (simp add: run_simps)

lemma run_Nil: "run chunk [] s = s"
  by (simp add: run_def)

lemma run_Cons: "run chunk (e # es) s = run chunk es (step chunk e s)"
  by (simp add: run_def)

lemma run_invariant:
  assumes "P s" and "\<And>e s. P s \<Longrightarrow> P (step chunk e s)"
  shows "P (run chunk es s)"
  using assms(1)
proof (induction es arbitrary: s)
  case Nil
  then show ?case by (simp add: run_Nil)
next
  case (Cons e es)
  then show ?case by (simp add: run_Cons assms(2))
qed

section \<open>What a completed invocation leaves behind (C2)\<close>

lemma has_delete: "\<not> has (AList.delete k al) k"
  by (simp add: has_def delete_conv)

lemma inflight_fallback: "inflight (fallback c x cx cz s) = inflight s"
  by (simp add: fallback_def Let_def publish_def)

lemma queue_fallback: "chunkLoadQueue (fallback c x cx cz s) = chunkLoadQueue s"
  by (simp add: fallback_def Let_def publish_def)

lemma inflight_catch:
  "inflight (catch_block c x q s) = inflight s - {keyOf (rcx q) (rcz q)}"
  by (simp add: catch_block_def Let_def finally_block_def inflight_fallback)

lemma queue_catch:
  "chunkLoadQueue (catch_block c x q s) = AList.delete (keyOf (rcx q) (rcz q)) (chunkLoadQueue s)"
  by (simp add: catch_block_def Let_def finally_block_def queue_fallback)

lemma timers_catch:
  "retryCount q < maxRetries \<Longrightarrow> \<not> disposed s \<Longrightarrow>
   timers (catch_block c x q s)
     = timers s @ [Timer (nextId s) (baseRetryDelay * 2 ^ retryCount q)
                     (RetryLoad (rcx q) (rcz q) (retryCount q + 1))]"
  by (simp add: catch_block_def Let_def finally_block_def)

lemma inflight_fetchSettles:
  "inflight (fetchSettles c r res x s)
     = (case awaiting AwaitFetch r s of
          None \<Rightarrow> inflight s
        | Some q \<Rightarrow> if res = Response True then inflight s
                    else inflight s - {keyOf (rcx q) (rcz q)})"
  by (auto simp: fetchSettles_def Let_def inflight_catch clearTimeout_def
      split: option.splits fetch_result.splits)

lemma queue_fetchSettles:
  "chunkLoadQueue (fetchSettles c r res x s)
     = (case awaiting AwaitFetch r s of
          None \<Rightarrow> chunkLoadQueue s
        | Some q \<Rightarrow> if res = Response True then chunkLoadQueue s
                    else AList.delete (keyOf (rcx q) (rcz q)) (chunkLoadQueue s))"
  by (auto simp: fetchSettles_def Let_def queue_catch clearTimeout_def
      split: option.splits fetch_result.splits)

lemma inflight_bodySettles:
  "inflight (bodySettles c r res x s)
     = (case awaiting AwaitBody r s of
          None \<Rightarrow> inflight s
        | Some q \<Rightarrow> inflight s - {keyOf (rcx q) (rcz q)})"
  by (auto simp: bodySettles_def Let_def inflight_catch finally_block_def publish_def
      split: option.splits body_result.splits)

lemma queue_bodySettles:
  "chunkLoadQueue (bodySettles c r res x s)
     = (case awaiting AwaitBody r s of
          None \<Rightarrow> chunkLoadQueue s
        | Some q \<Rightarrow> AList.delete (keyOf (rcx q) (rcz q)) (chunkLoadQueue s))"
  by (auto simp: bodySettles_def Let_def queue_catch finally_block_def publish_def
      split: option.splits body_result.splits)

lemma inflight_loadChunkAt:
  "inflight (loadChunkAt cx cz p s) \<subseteq> insert (keyOf cx cz) (inflight s)"
  by (auto simp: loadChunkAt_def Let_def attemptLoad_def)

lemma inflight_fireAction:
  "inflight (fireAction c x a s)
     \<subseteq> (case a of StaggerLoad cx cz p \<Rightarrow> insert (keyOf cx cz) (inflight s) | _ \<Rightarrow> inflight s)"
proof (cases a)
  case (AbortFetch r)
  then show ?thesis by (auto simp: fireAction_def inflight_catch split: option.splits)
next
  case (RetryLoad cx cz n)
  then show ?thesis by (auto simp: fireAction_def attemptLoad_def)
next
  case (StaggerLoad cx cz p)
  then show ?thesis using inflight_loadChunkAt [of cx cz p s] by (auto simp: fireAction_def)
next
  case (Prune key)
  then show ?thesis by (auto simp: fireAction_def prune_def split: option.splits)
qed

lemma inflight_step:
  "inflight (step c e s)
     \<subseteq> (case calls_loadChunkAt e s of
          None \<Rightarrow> inflight s
        | Some (cx, cz) \<Rightarrow> insert (keyOf cx cz) (inflight s))"
proof (cases e)
  case (EnsureChunksAround cx cz)
  then show ?thesis
    by (simp add: calls_loadChunkAt_def ensureChunksAround_def setTimeouts_def)
next
  case (LoadChunkAt cx cz p)
  then show ?thesis using inflight_loadChunkAt [of cx cz p s] by (simp add: calls_loadChunkAt_def)
next
  case (Fire t x)
  show ?thesis
  proof (cases "find (\<lambda>tm. tid tm = t) (timers s)")
    case None
    then show ?thesis by (simp add: Fire fire_def calls_loadChunkAt_def)
  next
    case (Some tm)
    obtain i d a where tm: "tm = Timer i d a" by (cases tm)
    have "inflight (clearTimeout t s) = inflight s" by (simp add: clearTimeout_def)
    then show ?thesis
      using inflight_fireAction [of c x a "clearTimeout t s"]
      by (cases a) (simp_all add: Fire fire_def calls_loadChunkAt_def Some tm)
  qed
next
  case (FetchSettles r res x)
  then show ?thesis
    by (auto simp: calls_loadChunkAt_def inflight_fetchSettles split: option.splits if_splits)
next
  case (BodySettles r res x)
  then show ?thesis
    by (auto simp: calls_loadChunkAt_def inflight_bodySettles split: option.splits)
next
  case Cleanup
  then show ?thesis by (simp add: calls_loadChunkAt_def cleanup_def)
qed

text \<open>
  C2 says that the \<^verbatim>\<open>finally\<close> block of every completed invocation of \<^verbatim>\<open>attemptLoad\<close>
  removes the key from \<^verbatim>\<open>inflight\<close> and from \<^verbatim>\<open>chunkLoadQueue\<close>, so that the key is
  absent from \<^verbatim>\<open>inflight\<close> throughout any retry window. The last part fails when
  \<^verbatim>\<open>loadChunkAt\<close> is called for the key during the window: after \<^verbatim>\<open>loadChunkAt(0, 0)\<close>,
  a response with status 500 and a second \<^verbatim>\<open>loadChunkAt(0, 0)\<close>, the retry timer of the
  first call is pending and the key is in \<^verbatim>\<open>inflight\<close>.
\<close>

theorem inflight_during_backoff_counterexample:
  "Timer 1 1000 (RetryLoad 0 0 1)
     \<in> set (timers (run 16 [LoadChunkAt 0 0 0, FetchSettles 0 (Response False) returns,
                             LoadChunkAt 0 0 0] init))
   \<and> keyOf 0 0 \<in> inflight (run 16 [LoadChunkAt 0 0 0, FetchSettles 0 (Response False) returns,
                                    LoadChunkAt 0 0 0] init)"
  by (simp add: run_simps)

text \<open>
  C2, amended: whenever an invocation of \<^verbatim>\<open>attemptLoad\<close> completes, also when it returns
  after setting a retry timer, its \<^verbatim>\<open>finally\<close> block has removed the key from
  \<^verbatim>\<open>inflight\<close> and from \<^verbatim>\<open>chunkLoadQueue\<close>, so the key is absent from \<^verbatim>\<open>inflight\<close> when the
  retry window begins; it stays absent until \<^verbatim>\<open>loadChunkAt\<close> is called for that key again.
  (The test of \<^verbatim>\<open>disposed\<close> at the entry of \<^verbatim>\<open>attemptLoad\<close> is outside the \<^verbatim>\<open>try\<close>, but
  \<^verbatim>\<open>attemptLoad\<close> is only called right after a test that the flag is not set.)
  The conjuncts are: the \<^verbatim>\<open>catch\<close> path (with the retry timer it sets), a \<^verbatim>\<open>fetch\<close> that
  does not resolve with an ok response, any settlement of the body, and the steps that
  keep a key out of \<^verbatim>\<open>inflight\<close>.
\<close>

theorem completion_clears_inflight:
  "keyOf (rcx q) (rcz q) \<notin> inflight (catch_block chunk x q s)
   \<and> \<not> has (chunkLoadQueue (catch_block chunk x q s)) (keyOf (rcx q) (rcz q))
   \<and> (retryCount q < maxRetries \<and> \<not> disposed s \<longrightarrow>
        timers (catch_block chunk x q s)
          = timers s @ [Timer (nextId s) (baseRetryDelay * 2 ^ retryCount q)
                          (RetryLoad (rcx q) (rcz q) (retryCount q + 1))])
   \<and> (awaiting AwaitFetch r1 s1 = Some q1 \<and> res \<noteq> Response True \<longrightarrow>
        keyOf (rcx q1) (rcz q1) \<notin> inflight (fetchSettles chunk r1 res x s1)
        \<and> \<not> has (chunkLoadQueue (fetchSettles chunk r1 res x s1)) (keyOf (rcx q1) (rcz q1)))
   \<and> (awaiting AwaitBody r2 s2 = Some q2 \<longrightarrow>
        keyOf (rcx q2) (rcz q2) \<notin> inflight (bodySettles chunk r2 bres x s2)
        \<and> \<not> has (chunkLoadQueue (bodySettles chunk r2 bres x s2)) (keyOf (rcx q2) (rcz q2)))
   \<and> (k \<notin> inflight s3 \<and> (\<forall>cx cz. calls_loadChunkAt e s3 = Some (cx, cz) \<longrightarrow> keyOf cx cz \<noteq> k)
        \<longrightarrow> k \<notin> inflight (step chunk e s3))"
proof -
  have last: "k \<notin> inflight (step chunk e s3)"
    if "k \<notin> inflight s3" and "\<forall>cx cz. calls_loadChunkAt e s3 = Some (cx, cz) \<longrightarrow> keyOf cx cz \<noteq> k"
    using inflight_step [of chunk e s3] that by (auto split: option.splits)
  show ?thesis
    using last
    by (simp add: inflight_catch queue_catch has_delete timers_catch inflight_fetchSettles
        queue_fetchSettles inflight_bodySettles queue_bodySettles)
qed

theorem completion_clears_inflight_witness:
  "retryCount (Request 0 0 0 0 AwaitFetch) < maxRetries
   \<and> \<not> disposed (run 16 [LoadChunkAt 0 0 0] init)
   \<and> timers (catch_block 16 returns (Request 0 0 0 0 AwaitFetch) (run 16 [LoadChunkAt 0 0 0] init))
       = [Timer 0 10000 (AbortFetch 0), Timer 1 1000 (RetryLoad 0 0 1)]
   \<and> awaiting AwaitFetch 0 (run 16 [LoadChunkAt 0 0 0] init) = Some (Request 0 0 0 0 AwaitFetch)
   \<and> keyOf 0 0 \<notin> inflight (fetchSettles 16 0 (Response False) returns
                                (run 16 [LoadChunkAt 0 0 0] init))
   \<and> awaiting AwaitBody 0 (run 16 [LoadChunkAt 0 0 0, FetchSettles 0 (Response True) returns] init)
       = Some (Request 0 0 0 0 AwaitBody)
   \<and> keyOf 0 0 \<notin> inflight (bodySettles 16 0 (Body 4096) returns
                                (run 16 [LoadChunkAt 0 0 0, FetchSettles 0 (Response True) returns] init))
   \<and> keyOf 0 0 \<notin> inflight (run 16 [LoadChunkAt 0 0 0, FetchSettles 0 (Response False) returns] init)
   \<and> calls_loadChunkAt (Fire 1 returns)
        (run 16 [LoadChunkAt 0 0 0, FetchSettles 0 (Response False) returns] init) = None
   \<and> keyOf 0 0 \<notin> inflight (step 16 (Fire 1 returns)
                                (run 16 [LoadChunkAt 0 0 0, FetchSettles 0 (Response False) returns] init))"
  using completion_clears_inflight
    [of "Request 0 0 0 0 AwaitFetch" 16 returns "run 16 [LoadChunkAt 0 0 0] init"
        0 "run 16 [LoadChunkAt 0 0 0] init" "Request 0 0 0 0 AwaitFetch" "Response False"
        0 "run 16 [LoadChunkAt 0 0 0, FetchSettles 0 (Response True) returns] init"
        "Request 0 0 0 0 AwaitBody" "Body 4096" "keyOf 0 0"
        "run 16 [LoadChunkAt 0 0 0, FetchSettles 0 (Response False) returns] init"
        "Fire 1 returns"]
  by (simp add: run_simps calls_loadChunkAt_def)

section \<open>One load sequence per key (C3)\<close>


text \<open>
  C3 says that at most one load sequence is active for a key at any moment, and that a
  second \<^verbatim>\<open>loadChunkAt\<close> for a key in flight or loaded returns at once. The second part
  holds (\<open>loadChunkAt_gate\<close>). The first fails after a failed attempt: the key has left
  \<^verbatim>\<open>inflight\<close> while the retry timer of the first sequence is pending, so a second
  \<^verbatim>\<open>loadChunkAt(0, 0)\<close> starts a second sequence and puts the key back; the retry timer of
  the first sequence then finds the key in \<^verbatim>\<open>inflight\<close> and calls \<^verbatim>\<open>attemptLoad(1)\<close>. In
  the state reached two invocations for the key \<^verbatim>\<open>0,0\<close> wait for their \<^verbatim>\<open>fetch\<close>, and three
  requests have been sent for it.
\<close>

theorem two_load_sequences_for_one_key:
  "requests (run 16 [LoadChunkAt 0 0 0, FetchSettles 0 (Response False) returns,
                     LoadChunkAt 0 0 0, Fire 1 returns] init)
     = [Request 2 0 0 0 AwaitFetch, Request 3 0 0 1 AwaitFetch]
   \<and> fetched (run 16 [LoadChunkAt 0 0 0, FetchSettles 0 (Response False) returns,
                      LoadChunkAt 0 0 0, Fire 1 returns] init)
     = [(0, 0), (0, 0), (0, 0)]
   \<and> inflight (run 16 [LoadChunkAt 0 0 0, FetchSettles 0 (Response False) returns,
                       LoadChunkAt 0 0 0, Fire 1 returns] init)
     = {keyOf 0 0}"
  by (simp add: run_simps)

section \<open>One record per key (C4)\<close>



















section \<open>Disposal (C5, C6)\<close>

lemma released_finally: "released w s \<Longrightarrow> released w (finally_block r key s)"
  by (simp add: released_def finally_block_def)

lemma released_fallback: "released w s \<Longrightarrow> released w (fallback chunk x cx cz s)"
  by (simp add: released_def fallback_def Let_def)

lemma released_catch: "released w s \<Longrightarrow> released w (catch_block chunk x q s)"
  unfolding catch_block_def Let_def
  by (simp add: released_finally released_fallback) (simp add: released_def)

lemma released_clearTimeout: "released w s \<Longrightarrow> released w (clearTimeout t s)"
  by (simp add: released_def clearTimeout_def)

lemma released_fetchSettles: "released w s \<Longrightarrow> released w (fetchSettles chunk r res x s)"
  unfolding fetchSettles_def Let_def
  by (auto simp: released_catch released_clearTimeout split: option.splits fetch_result.splits)
    (simp add: released_def clearTimeout_def)

lemma released_bodySettles: "released w s \<Longrightarrow> released w (bodySettles chunk r res x s)"
  unfolding bodySettles_def Let_def
  by (auto simp: released_catch released_finally split: option.splits body_result.splits)
    (simp_all add: released_def)

lemma released_fire: "released w s \<Longrightarrow> released w (fire chunk t x s)"
  unfolding fire_def fireAction_def
  by (auto simp: released_catch released_clearTimeout split: option.splits action.splits)
    (simp_all add: released_def clearTimeout_def prune_def)

lemma released_step: "released w s \<Longrightarrow> released w (step chunk e s)"
proof (cases e)
  case (EnsureChunksAround cx cz)
  assume "released w s"
  then show ?thesis
    by (simp add: EnsureChunksAround released_def ensureChunksAround_def setTimeouts_def)
next
  case (LoadChunkAt cx cz p)
  assume "released w s"
  then show ?thesis by (simp add: LoadChunkAt released_def loadChunkAt_def)
next
  case (Fire t x)
  assume "released w s"
  then show ?thesis by (simp add: Fire released_fire)
next
  case (FetchSettles r res x)
  assume "released w s"
  then show ?thesis by (simp add: FetchSettles released_fetchSettles)
next
  case (BodySettles r res x)
  assume "released w s"
  then show ?thesis by (simp add: BodySettles released_bodySettles)
next
  case Cleanup
  assume "released w s"
  then show ?thesis by (simp add: Cleanup released_def cleanup_def)
qed

lemma released_cleanup: "released (worldGroup s) (cleanup s)"
  by (simp add: released_def cleanup_def)

lemma released_run: "released (worldGroup s) (run chunk es (cleanup s))"
  by (rule run_invariant [where P = "released (worldGroup s)"])
    (simp_all add: released_cleanup released_step)

text \<open>
  C5: after the disposal flag is set, no chunk record is inserted into the registry and
  no chunk group is attached to the scene: whatever resumes after the cleanup (a
  response, a body, a retry timer, a stagger timer, an abort, a removal) leaves
  \<^verbatim>\<open>loaded\<close> empty and the children of \<^verbatim>\<open>worldGroup\<close> as they were. The flag is set by the
  cleanup only, so the states after it are the runs from \<open>cleanup s\<close>.
\<close>

theorem nothing_published_after_cleanup:
  "disposed (run chunk es (cleanup s))
   \<and> loaded (run chunk es (cleanup s)) = []
   \<and> worldGroup (run chunk es (cleanup s)) = worldGroup s"
  using released_run [of s chunk es] by (simp add: released_def)

text \<open>
  C6 says that the disposal cancels all pending timers, aborts all outstanding requests
  and leaves \<^verbatim>\<open>inflight\<close> empty. The cleanup calls neither \<^verbatim>\<open>clearTimeout\<close> nor
  \<^verbatim>\<open>abort\<close>: after \<^verbatim>\<open>loadChunkAt(0, 0)\<close>, a response with status 500, a second
  \<^verbatim>\<open>loadChunkAt(0, 0)\<close> and the cleanup, the retry timer and the abort timer are still
  pending and the second request is still outstanding.
\<close>

theorem cleanup_keeps_timers_counterexample:
  "timers (run 16 [LoadChunkAt 0 0 0, FetchSettles 0 (Response False) returns,
                   LoadChunkAt 0 0 0, Cleanup] init)
     = [Timer 1 1000 (RetryLoad 0 0 1), Timer 2 10000 (AbortFetch 2)]
   \<and> requests (run 16 [LoadChunkAt 0 0 0, FetchSettles 0 (Response False) returns,
                       LoadChunkAt 0 0 0, Cleanup] init)
     = [Request 2 0 0 0 AwaitFetch]"
  by (simp add: run_simps)

text \<open>
  C6, amended: when the disposal runs, the pending timers and the outstanding requests
  are left as they are (no timer is cancelled, no request is aborted), and the in-flight
  set is left empty; it stays empty in everything that runs afterwards.
\<close>

theorem cleanup_effect:
  "timers (cleanup s) = timers s
   \<and> requests (cleanup s) = requests s
   \<and> inflight (cleanup s) = {}
   \<and> inflight (run chunk es (cleanup s)) = {}"
  using released_run [of s chunk es] by (simp add: released_def cleanup_def)

section \<open>ensureChunksAround (C7, C8)\<close>

lemma timers_ensureChunksAround:
  "timers (ensureChunksAround cx cz s)
     = timers s
       @ map (\<lambda>(i, a). Timer (nextId s + i) (i * 50) a)
           (enumerate 0 (map (\<lambda>(x, z, p). StaggerLoad x z p) (chunksToLoad cx cz s)))
       @ map (\<lambda>(i, a). Timer (nextId s + length (chunksToLoad cx cz s) + i) (i * 10) a)
           (enumerate 0 (map Prune (chunksToRemove cx cz s)))"
  by (simp add: ensureChunksAround_def setTimeouts_def)

lemma nth_scheduled:
  assumes "i < length acts"
  shows "map (\<lambda>(i, a). Timer (n + i) (i * ms) a) (enumerate 0 acts) ! i
           = Timer (n + i) (i * ms) (acts ! i)"
  using assms by (simp add: nth_enumerate_eq)

lemma length_scheduled:
  "length (map (\<lambda>(i, a). Timer (n + i) (i * ms) a) (enumerate 0 acts)) = length acts"
  by simp

lemma load_timer:
  assumes "i < length (chunksToLoad cx cz s)"
  shows "timers (ensureChunksAround cx cz s) ! (length (timers s) + i)
           = Timer (nextId s + i) (i * 50)
               (case chunksToLoad cx cz s ! i of (x, z, p) \<Rightarrow> StaggerLoad x z p)"
  using assms unfolding timers_ensureChunksAround
  by (simp add: nth_append nth_enumerate_eq)





lemma priority_origin: "priority 0 0 = real_of_int VIEW_RADIUS"
  by (simp add: priority_def VIEW_RADIUS_def)

lemma priority_other:
  assumes "dx \<noteq> 0 \<or> dz \<noteq> 0"
  shows "priority dx dz < real_of_int VIEW_RADIUS"
proof -
  have "dx * dx > 0 \<or> dz * dz > 0" using assms by (auto simp: zero_less_mult_iff)
  moreover have "dx * dx \<ge> 0" "dz * dz \<ge> 0" by simp_all
  ultimately have "1 \<le> dx * dx + dz * dz" by linarith
  then have "1 \<le> real_of_int (dx * dx + dz * dz)" by linarith
  then have "1 \<le> sqrt (real_of_int (dx * dx + dz * dz))" by simp
  then show ?thesis by (simp add: priority_def VIEW_RADIUS_def)
qed

lemma set_candidates:
  "set (candidates cx cz s)
     = {(cx + dx, cz + dz, priority dx dz) | dx dz.
          \<bar>dx\<bar> \<le> VIEW_RADIUS \<and> \<bar>dz\<bar> \<le> VIEW_RADIUS
          \<and> \<not> has (loaded s) (keyOf (cx + dx) (cz + dz))
          \<and> keyOf (cx + dx) (cz + dz) \<notin> inflight s}"
  by (auto simp: candidates_def)

lemma set_chunksToLoad: "set (chunksToLoad cx cz s) = set (candidates cx cz s)"
  by (simp add: chunksToLoad_def)

lemma sorted_chunksToLoad:
  "sorted_wrt (\<lambda>a b. snd (snd a) \<ge> snd (snd b)) (chunksToLoad cx cz s)"
proof -
  have "sorted (map (\<lambda>c. - snd (snd c)) (chunksToLoad cx cz s))"
    unfolding chunksToLoad_def by (rule sorted_sort_key)
  then show ?thesis by (simp add: sorted_map)
qed

lemma hd_sort_key_least:
  assumes "x \<in> set xs" and "\<forall>y \<in> set xs. y \<noteq> x \<longrightarrow> f x < f y"
  shows "hd (sort_key f xs) = x"
proof -
  let ?ys = "sort_key f xs"
  have ne: "?ys \<noteq> []" using assms(1) by (metis empty_iff list.set(1) set_sort)
  then have h: "hd ?ys \<in> set xs" by (metis list.set_sel(1) set_sort)
  have "sorted (map f ?ys)" by (rule sorted_sort_key)
  moreover have "x \<in> set ?ys" using assms(1) by simp
  ultimately have "f (hd ?ys) \<le> f x"
    using ne by (cases ?ys) auto
  then show ?thesis using assms(2) h by force
qed

lemma hd_chunksToLoad:
  assumes "\<not> has (loaded s) (keyOf cx cz)" and "keyOf cx cz \<notin> inflight s"
  shows "hd (chunksToLoad cx cz s) = (cx, cz, real_of_int VIEW_RADIUS)"
  unfolding chunksToLoad_def
proof (rule hd_sort_key_least)
  have "(cx + 0, cz + 0, priority 0 0) \<in> set (candidates cx cz s)"
    unfolding set_candidates using assms by (auto simp: VIEW_RADIUS_def)
  then show "(cx, cz, real_of_int VIEW_RADIUS) \<in> set (candidates cx cz s)"
    by (simp add: priority_origin)
next
  show "\<forall>y \<in> set (candidates cx cz s). y \<noteq> (cx, cz, real_of_int VIEW_RADIUS) \<longrightarrow>
          - snd (snd (cx, cz, real_of_int VIEW_RADIUS)) < - snd (snd y)"
  proof (intro ballI impI)
    fix y
    assume y: "y \<in> set (candidates cx cz s)" and ne: "y \<noteq> (cx, cz, real_of_int VIEW_RADIUS)"
    then obtain dx dz where yd: "y = (cx + dx, cz + dz, priority dx dz)"
      unfolding set_candidates by blast
    have "dx \<noteq> 0 \<or> dz \<noteq> 0" using ne yd priority_origin by auto
    then show "- snd (snd (cx, cz, real_of_int VIEW_RADIUS)) < - snd (snd y)"
      using priority_other [of dx dz] yd by simp
  qed
qed

lemma hd_sort_key_first:
  assumes "\<forall>y \<in> set as. f x < f y" and "\<forall>y \<in> set bs. f x \<le> f y"
  shows "\<exists>t. sort_key f (as @ x # bs) = x # t"
  using assms(1)
proof (induction as)
  case Nil
  show ?case
  proof (cases "sort_key f bs")
    case Nil
    then show ?thesis by simp
  next
    case (Cons y ys)
    then have "y \<in> set bs" by (metis list.set_intros(1) set_sort)
    then have "f x \<le> f y" using assms(2) by simp
    then show ?thesis using Cons by simp
  qed
next
  case (Cons a as)
  then obtain t where t: "sort_key f (as @ x # bs) = x # t" by auto
  have "f x < f a" using Cons.prems by simp
  then show ?case using t by auto
qed

lemma priority_unit: "priority 0 (- 1) = 5"
  by (simp add: priority_def VIEW_RADIUS_def)

lemma priority_le_5:
  assumes "dx \<noteq> 0 \<or> dz \<noteq> 0"
  shows "priority dx dz \<le> 5"
proof -
  have "dx * dx > 0 \<or> dz * dz > 0" using assms by (auto simp: zero_less_mult_iff)
  moreover have "dx * dx \<ge> 0" "dz * dz \<ge> 0" by simp_all
  ultimately have "1 \<le> dx * dx + dz * dz" by linarith
  then have "1 \<le> real_of_int (dx * dx + dz * dz)" by linarith
  then have "1 \<le> sqrt (real_of_int (dx * dx + dz * dz))" by simp
  then show ?thesis by (simp add: priority_def VIEW_RADIUS_def)
qed

lemma priority_less_5:
  assumes "dz \<le> - 2 \<or> (dz = - 1 \<and> dx \<le> - 1)"
  shows "priority dx dz < 5"
proof -
  have "2 \<le> dx * dx + dz * dz"
  proof (cases "dz \<le> - 2")
    case True
    then have "2 * 2 \<le> (- dz) * (- dz)" by (intro mult_mono) simp_all
    then have "dz * dz \<ge> 4" by simp
    moreover have "dx * dx \<ge> 0" by simp
    ultimately show ?thesis by linarith
  next
    case False
    then have dz: "dz = - 1" and dx: "dx \<le> - 1" using assms by simp_all
    have "1 * 1 \<le> (- dx) * (- dx)" using dx by (intro mult_mono) simp_all
    then show ?thesis using dz by simp
  qed
  then have "1 < real_of_int (dx * dx + dz * dz)" by linarith
  then have "1 < sqrt (real_of_int (dx * dx + dz * dz))" by simp
  then show ?thesis by (simp add: priority_def VIEW_RADIUS_def)
qed

lemma first_load_value:
  assumes l: "loaded s = [(''0,0'', g)]" and i: "inflight s = {}"
  shows "\<exists>t. chunksToLoad 0 0 s = (0, - 1, 5) # t"
proof -
  let ?skip = "\<lambda>dx dz. has (loaded s) (keyOf (0 + dx) (0 + dz)) \<or> keyOf (0 + dx) (0 + dz) \<in> inflight s"
  let ?cell = "\<lambda>dz dx. if \<not> ?skip dx dz then [(0 + dx, 0 + dz, priority dx dz)] else []"
  let ?row = "\<lambda>dz. concat (map (?cell dz) [- VIEW_RADIUS..VIEW_RADIUS])"
  let ?as = "concat (map ?row [- VIEW_RADIUS..- 2]) @ concat (map (?cell (- 1)) [- VIEW_RADIUS..- 1])"
  let ?bs = "concat (map (?cell (- 1)) [1..VIEW_RADIUS]) @ concat (map ?row [0..VIEW_RADIUS])"
  have k0: "keyOf 0 0 = ''0,0''" and k1: "keyOf 0 (- 1) = ''0,-1''"
    by (simp_all add: keyOf_def numberToString_def digits.simps digit_char_def)
  have c: "candidates 0 0 s = concat (map ?row [- VIEW_RADIUS..VIEW_RADIUS])"
    by (simp add: candidates_def)
  have u1: "[- VIEW_RADIUS..VIEW_RADIUS] = [- VIEW_RADIUS..- 2] @ (- 1) # [0..VIEW_RADIUS]"
    using upto_split3 [of "- VIEW_RADIUS" "- 1" VIEW_RADIUS] by (simp add: VIEW_RADIUS_def)
  have u2: "[- VIEW_RADIUS..VIEW_RADIUS] = [- VIEW_RADIUS..- 1] @ 0 # [1..VIEW_RADIUS]"
    using upto_split3 [of "- VIEW_RADIUS" 0 VIEW_RADIUS] by (simp add: VIEW_RADIUS_def)
  have cell: "?cell (- 1) 0 = [(0, - 1, 5)]"
    by (simp add: l i k1 has_def priority_unit)
  have row: "?row (- 1) = concat (map (?cell (- 1)) [- VIEW_RADIUS..- 1]) @ (0, - 1, 5)
               # concat (map (?cell (- 1)) [1..VIEW_RADIUS])"
    by (subst u2) (simp only: map_append concat_append list.map concat.simps cell append_Cons append_Nil)
  have split: "candidates 0 0 s = ?as @ (0, - 1, 5) # ?bs"
    unfolding c by (subst u1) (simp only: map_append concat_append list.map concat.simps row append_assoc append_Cons append_Nil)
  have before: "\<forall>y \<in> set ?as. - snd (snd (0::int, - 1::int, 5::real)) < - snd (snd y)"
    by (auto simp: priority_less_5)
  have after: "\<forall>y \<in> set ?bs. - snd (snd (0::int, - 1::int, 5::real)) \<le> - snd (snd y)"
  proof
    fix y assume "y \<in> set ?bs"
    then obtain dx dz where y: "y = (0 + dx, 0 + dz, priority dx dz)" and ns: "\<not> ?skip dx dz"
      by (auto split: if_splits)
    have "dx \<noteq> 0 \<or> dz \<noteq> 0"
    proof (rule ccontr)
      assume "\<not> (dx \<noteq> 0 \<or> dz \<noteq> 0)"
      then have "dx = 0" "dz = 0" by simp_all
      then show False using ns by (simp add: l k0 has_def)
    qed
    then show "- snd (snd (0::int, - 1::int, 5::real)) \<le> - snd (snd y)"
      using priority_le_5 [of dx dz] y by simp
  qed
  show ?thesis
    unfolding chunksToLoad_def split by (rule hd_sort_key_first [OF before after])
qed

text \<open>
  C7 says that the first load \<^verbatim>\<open>ensureChunksAround\<close> schedules is always the chunk of the
  camera. A chunk that is loaded is skipped by the scan (line 215): once the chunk
  \<open>(0, 0)\<close> is loaded, the first candidate of \<^verbatim>\<open>ensureChunksAround(0, 0)\<close> is the chunk
  \<open>(0, -1)\<close> with priority 5, and the first timer set is the one of its load.
\<close>

theorem first_load_not_camera_chunk_counterexample:
  "has (loaded (run 16 [LoadChunkAt 0 0 0, FetchSettles 0 (Response True) returns,
                        BodySettles 0 (Body 4096) returns] init)) (keyOf 0 0)
   \<and> hd (chunksToLoad 0 0 (run 16 [LoadChunkAt 0 0 0, FetchSettles 0 (Response True) returns,
                                   BodySettles 0 (Body 4096) returns] init)) = (0, - 1, 5)
   \<and> hd (timers (ensureChunksAround 0 0
                    (run 16 [LoadChunkAt 0 0 0, FetchSettles 0 (Response True) returns,
                             BodySettles 0 (Body 4096) returns] init)))
       = Timer 2 0 (StaggerLoad 0 (- 1) 5)"
proof -
  define s where "s = run 16 [LoadChunkAt 0 0 0, FetchSettles 0 (Response True) returns,
                              BodySettles 0 (Body 4096) returns] init"
  have l: "loaded s = [(''0,0'', Group 1 (0, 0) Remote)]" and i: "inflight s = {}"
    and t: "timers s = []" and n: "nextId s = 2"
    unfolding s_def by (simp_all add: run_simps)
  have k0: "keyOf 0 0 = ''0,0''"
    by (simp add: keyOf_def numberToString_def digits.simps digit_char_def)
  have h: "has (loaded s) (keyOf 0 0)" by (simp add: l k0 has_def)
  obtain r where r: "chunksToLoad 0 0 s = (0, - 1, 5) # r"
    using first_load_value [OF l i] by blast
  have c: "hd (chunksToLoad 0 0 s) = (0, - 1, 5)" by (simp add: r)
  have "timers (ensureChunksAround 0 0 s) ! (length (timers s) + 0)
          = Timer (nextId s + 0) (0 * 50)
              (case chunksToLoad 0 0 s ! 0 of (x, z, p) \<Rightarrow> StaggerLoad x z p)"
    by (rule load_timer) (simp add: r)
  then have t0: "timers (ensureChunksAround 0 0 s) ! 0 = Timer 2 0 (StaggerLoad 0 (- 1) 5)"
    by (simp add: t n r)
  have "timers (ensureChunksAround 0 0 s) \<noteq> []"
    by (simp add: timers_ensureChunksAround r)
  then have f: "hd (timers (ensureChunksAround 0 0 s)) = Timer 2 0 (StaggerLoad 0 (- 1) 5)"
    using t0 by (simp add: hd_conv_nth)
  show ?thesis
    unfolding s_def [symmetric] by (intro conjI h c f)
qed

text \<open>
  C7, amended: \<^verbatim>\<open>ensureChunksAround(cx, cz)\<close> gives each key \<open>(cx + dx, cz + dz)\<close> with
  \<open>|dx|, |dz| \<le> VIEW_RADIUS\<close> that is neither loaded nor in flight the priority
  \<open>max(0, VIEW_RADIUS - sqrt(dx\<^sup>2 + dz\<^sup>2))\<close>, sorts these candidates by descending priority,
  and schedules the load of the \<open>i\<close>-th candidate with a delay of \<open>i * 50\<close> ms; when the
  chunk of the camera is itself neither loaded nor in flight, it is the first load
  scheduled.
\<close>

theorem ensureChunksAround_loads:
  "set (chunksToLoad cx cz s)
     = {(cx + dx, cz + dz,
         max 0 (real_of_int VIEW_RADIUS - sqrt (real_of_int (dx * dx + dz * dz)))) | dx dz.
          \<bar>dx\<bar> \<le> VIEW_RADIUS \<and> \<bar>dz\<bar> \<le> VIEW_RADIUS
          \<and> \<not> has (loaded s) (keyOf (cx + dx) (cz + dz))
          \<and> keyOf (cx + dx) (cz + dz) \<notin> inflight s}
   \<and> sorted_wrt (\<lambda>a b. snd (snd a) \<ge> snd (snd b)) (chunksToLoad cx cz s)
   \<and> (i < length (chunksToLoad cx cz s) \<longrightarrow>
        timers (ensureChunksAround cx cz s) ! (length (timers s) + i)
          = Timer (nextId s + i) (i * 50)
              (case chunksToLoad cx cz s ! i of (x, z, p) \<Rightarrow> StaggerLoad x z p))
   \<and> (\<not> has (loaded s) (keyOf cx cz) \<and> keyOf cx cz \<notin> inflight s \<longrightarrow>
        hd (chunksToLoad cx cz s) = (cx, cz, real_of_int VIEW_RADIUS))"
  using set_candidates [of cx cz s] sorted_chunksToLoad [of cx cz s] load_timer [of i cx cz s]
    hd_chunksToLoad [of s cx cz]
  by (simp add: set_chunksToLoad priority_def)

theorem ensureChunksAround_loads_witness:
  "\<not> has (loaded init) (keyOf 0 0) \<and> keyOf 0 0 \<notin> inflight init
   \<and> hd (chunksToLoad 0 0 init) = (0, 0, 6)
   \<and> 0 < length (chunksToLoad 0 0 init)
   \<and> timers (ensureChunksAround 0 0 init) ! 0 = Timer 0 0 (StaggerLoad 0 0 6)"
proof -
  have a: "\<not> has (loaded init) (keyOf 0 0)" and b: "keyOf 0 0 \<notin> inflight init"
    by (simp_all add: init_def has_def)
  have "(0 + 0, 0 + 0, priority 0 0) \<in> set (candidates 0 0 init)"
    unfolding set_candidates
    by (intro CollectI exI [of _ 0]) (simp add: init_def has_def VIEW_RADIUS_def)
  then have ne: "chunksToLoad 0 0 init \<noteq> []"
    using set_chunksToLoad [of 0 0 init] by auto
  then have n0: "chunksToLoad 0 0 init ! 0 = hd (chunksToLoad 0 0 init)"
    by (simp add: hd_conv_nth)
  have t: "timers init = []" "nextId init = 0" by (simp_all add: init_def)
  show ?thesis
    using ensureChunksAround_loads [of 0 0 init 0] a b ne n0 t
    by (simp add: VIEW_RADIUS_def)
qed



section \<open>Grid length (C9)\<close>

lemma full_finally: "full_grids c s \<Longrightarrow> full_grids c (finally_block r key s)"
  by (simp add: full_grids_def finally_block_def)

lemma full_fallback: "full_grids c s \<Longrightarrow> full_grids c (fallback c x cx cz s)"
  by (simp add: full_grids_def fallback_def Let_def publish_def generateChunk_length_def)

lemma full_catch: "full_grids c s \<Longrightarrow> full_grids c (catch_block c x q s)"
  unfolding catch_block_def Let_def
  by (simp add: full_finally full_fallback) (simp add: full_grids_def finally_block_def)

lemma full_clearTimeout: "full_grids c s \<Longrightarrow> full_grids c (clearTimeout t s)"
  by (simp add: full_grids_def clearTimeout_def)

lemma full_fetchSettles: "full_grids c s \<Longrightarrow> full_grids c (fetchSettles c r res x s)"
  unfolding fetchSettles_def Let_def
  by (auto simp: full_catch full_clearTimeout split: option.splits fetch_result.splits)
    (simp add: full_grids_def clearTimeout_def)

lemma full_built: "full_grids c s \<Longrightarrow> full_grids c (s\<lparr>built := built s @ [(p, c * c * c)]\<rparr>)"
  by (simp add: full_grids_def)

lemma full_publish: "full_grids c s \<Longrightarrow> full_grids c (publish c cx cz p s)"
  by (simp add: full_grids_def publish_def Let_def)

lemma full_bodySettles: "full_grids c s \<Longrightarrow> full_grids c (bodySettles c r res x s)"
  unfolding bodySettles_def Let_def
  by (auto simp: full_catch full_finally full_built full_publish
      split: option.splits body_result.splits)

lemma full_attemptLoad: "full_grids c s \<Longrightarrow> full_grids c (attemptLoad cx cz n s)"
  by (simp add: full_grids_def attemptLoad_def)

lemma full_loadChunkAt: "full_grids c s \<Longrightarrow> full_grids c (loadChunkAt cx cz p s)"
  unfolding loadChunkAt_def Let_def
  by (auto intro!: full_attemptLoad) (simp add: full_grids_def)

lemma full_fire: "full_grids c s \<Longrightarrow> full_grids c (fire c t x s)"
  unfolding fire_def fireAction_def
  by (auto simp: full_catch full_clearTimeout full_attemptLoad full_loadChunkAt
      split: option.splits action.splits)
    (simp_all add: full_grids_def clearTimeout_def prune_def split: option.splits)

lemma full_step: "full_grids c s \<Longrightarrow> full_grids c (step c e s)"
proof (cases e)
  case (EnsureChunksAround cx cz)
  assume "full_grids c s"
  then show ?thesis
    by (simp add: EnsureChunksAround full_grids_def ensureChunksAround_def setTimeouts_def)
next
  case (LoadChunkAt cx cz p)
  assume "full_grids c s"
  then show ?thesis by (simp add: LoadChunkAt full_loadChunkAt)
next
  case (Fire t x)
  assume "full_grids c s"
  then show ?thesis by (simp add: Fire full_fire)
next
  case (FetchSettles r res x)
  assume "full_grids c s"
  then show ?thesis by (simp add: FetchSettles full_fetchSettles)
next
  case (BodySettles r res x)
  assume "full_grids c s"
  then show ?thesis by (simp add: BodySettles full_bodySettles)
next
  case Cleanup
  assume "full_grids c s"
  then show ?thesis by (simp add: Cleanup full_grids_def cleanup_def)
qed

lemma full_run: "full_grids c (run c es init)"
  by (rule run_invariant [where P = "full_grids c"]) (simp_all add: full_step, simp add: full_grids_def init_def)

text \<open>
  C9: a response body whose byte length is not \<open>CHUNK\<^sup>3\<close> (an empty body included) does
  not reach \<^verbatim>\<open>buildInstancedChunk\<close>: the continuation runs the \<^verbatim>\<open>catch\<close> block, as for any
  failed attempt, before any grid is built from the body; and in every run each grid
  passed to \<^verbatim>\<open>buildInstancedChunk\<close> has exactly \<open>CHUNK\<^sup>3\<close> bytes (for a locally generated
  grid this is the length the specification gives for \<^verbatim>\<open>generateChunk\<close>).
\<close>

theorem only_full_grids_built:
  "(awaiting AwaitBody r s = Some q \<and> n \<noteq> chunk * chunk * chunk
      \<longrightarrow> bodySettles chunk r (Body n) x s = catch_block chunk x q s)
   \<and> (\<forall>b \<in> set (built (run chunk es init)). snd b = chunk * chunk * chunk)"
  using full_run [of chunk es] by (simp add: full_grids_def bodySettles_def)

theorem only_full_grids_built_witness:
  "awaiting AwaitBody 0 (run 16 [LoadChunkAt 0 0 0, FetchSettles 0 (Response True) returns] init)
     = Some (Request 0 0 0 0 AwaitBody)
   \<and> (4095::nat) \<noteq> 16 * 16 * 16
   \<and> bodySettles 16 0 (Body 4095) returns
        (run 16 [LoadChunkAt 0 0 0, FetchSettles 0 (Response True) returns] init)
       = catch_block 16 returns (Request 0 0 0 0 AwaitBody)
           (run 16 [LoadChunkAt 0 0 0, FetchSettles 0 (Response True) returns] init)
   \<and> built (bodySettles 16 0 (Body 4095) returns
        (run 16 [LoadChunkAt 0 0 0, FetchSettles 0 (Response True) returns] init)) = []
   \<and> built (run 16 [LoadChunkAt 0 0 0, FetchSettles 0 (Response True) returns,
                    BodySettles 0 (Body 4096) returns] init) = [(Remote, 4096)]
   \<and> snd (Remote, 4096::nat) = 16 * 16 * 16"
  using only_full_grids_built
    [of 0 "run 16 [LoadChunkAt 0 0 0, FetchSettles 0 (Response True) returns] init"
        "Request 0 0 0 0 AwaitBody" 4095 16 returns
        "[LoadChunkAt 0 0 0, FetchSettles 0 (Response True) returns,
          BodySettles 0 (Body 4096) returns]"]
  by (simp add: run_simps)

section \<open>Keys and coordinates (C10)\<close>

lemma digit_cases: "d < 10 \<Longrightarrow> d \<in> {0, 1, 2, 3, 4, 5, 6, 7, 8, 9::nat}"
  by auto


lemma is_digit_digit_char: "d < 10 \<Longrightarrow> is_digit (digit_char d)"
  using digit_cases [of d] by (auto simp: is_digit_def digit_char_def)


lemma digits_all_digit: "\<forall>c \<in> set (digits n). is_digit c"
proof (induction n rule: digits.induct)
  case (1 n)
  show ?case
  proof (cases "n < 10")
    case True
    then show ?thesis by (simp add: digits.simps [of n] is_digit_digit_char)
  next
    case False
    with 1 show ?thesis by (simp add: digits.simps [of n] is_digit_digit_char)
  qed
qed

lemma digits_nonempty: "digits n \<noteq> []"
  by (subst digits.simps) simp


lemma takeWhile_digits: "takeWhile is_digit (digits n) = digits n"
  using digits_all_digit [of n] by (simp add: takeWhile_eq_all_conv)

lemma hd_digits: "\<exists>c cs. digits n = c # cs \<and> is_digit c"
  using digits_nonempty [of n] digits_all_digit [of n] by (cases "digits n") auto








lemma split_nonempty: "split sep cs \<noteq> []"
  by (induction cs) (auto split: list.splits)







end
